theory Spec2Isabelle
  imports Complex_Main "HOL-Library.Word" "HOL-Library.Sublist"
begin

section \<open>Scene tree and draw order (vispy/scene/canvas.py)\<close>

text \<open>
  A scene node as far as the canvas reads it: its identity (Python object identity,
  here a number), its \<open>visible\<close> flag, whether \<open>hasattr(node, 'draw')\<close> holds, and
  its ordered children.
\<close>

datatype node = Node (node_id: nat) (visible: bool) (has_draw: bool) (children: "node list")

text \<open>
  Python exceptions as values. \<open>KeyboardInterrupt\<close> stands for the exceptions that
  derive from \<open>BaseException\<close> but not from \<open>Exception\<close>; \<open>RuntimeError\<close> for an
  error raised by the GL layer.
\<close>

datatype error = IndexError | KeyError | NameError string | ValueError string | TypeError string
  | AttributeError string | NotImplementedError | StructError | RuntimeError string
  | KeyboardInterrupt

fun is_Exception :: "error \<Rightarrow> bool" where
  "is_Exception KeyboardInterrupt = False"
| "is_Exception _ = True"

text \<open>
  \<open>SceneCanvas._generate_draw_order\<close> (lines 276-288): the entry \<open>(node, True)\<close>,
  then the order of every child in turn, then \<open>(node, False)\<close>.
\<close>

fun generate_draw_order :: "node \<Rightarrow> (node \<times> bool) list" where
  "generate_draw_order (Node i v d cs) =
     (Node i v d cs, True) # concat (map generate_draw_order cs) @ [(Node i v d cs, False)]"

text \<open>The nodes of a tree, parents before children (used to state properties only).\<close>

fun nodes :: "node \<Rightarrow> node list" where
  "nodes (Node i v d cs) = Node i v d cs # concat (map nodes cs)"

text \<open>
  The nodes that lie in the subtree of a node whose \<open>visible\<close> flag is false
  (that node included).
\<close>

fun hidden :: "node \<Rightarrow> node list" where
  "hidden (Node i v d cs) = (if v then concat (map hidden cs) else nodes (Node i v d cs))"

text \<open>
  The expected sequence of \<open>draw()\<close> calls: descend while nodes are visible, calling
  \<open>draw\<close> on those that have it.
\<close>

fun drawn :: "node \<Rightarrow> node list" where
  "drawn (Node i v d cs) =
     (if v then (if d then [Node i v d cs] else []) @ concat (map drawn cs) else [])"

text \<open>\<open>node is invisible_node\<close>: object identity, false for \<open>None\<close>.\<close>

fun is_node :: "node \<Rightarrow> node option \<Rightarrow> bool" where
  "is_node n None = False"
| "is_node n (Some m) = (node_id m = node_id n)"

text \<open>
  The loop of \<open>SceneCanvas.draw_visual\<close> (lines 258-274) over the draw order, with its
  three variables: the stack of open nodes, \<open>invisible_node\<close>, and the \<open>draw()\<close> calls
  made so far, in order. \<open>stack.pop()\<close> on an empty list raises \<open>IndexError\<close>.
\<close>

fun draw_loop ::
  "(node \<times> bool) list \<Rightarrow> node list \<Rightarrow> node option \<Rightarrow> node list
     \<Rightarrow> error + (node list \<times> node option \<times> node list)" where
  "draw_loop [] stack invisible_node draws = Inr (stack, invisible_node, draws)"
| "draw_loop ((n, start) # order) stack invisible_node draws =
     (if start then
        (if invisible_node = None then
           (if \<not> visible n then draw_loop order (stack @ [n]) (Some n) draws
            else if has_draw n then draw_loop order (stack @ [n]) None (draws @ [n])
            else draw_loop order (stack @ [n]) None draws)
         else draw_loop order (stack @ [n]) invisible_node draws)
      else
        (let invisible_node' = (if is_node n invisible_node then None else invisible_node)
         in if stack = [] then Inl IndexError
            else draw_loop order (butlast stack) invisible_node' draws))"

section \<open>The canvas: draw-order cache, viewport and framebuffer stacks\<close>

type_synonym viewport = "int \<times> int \<times> int \<times> int"

text \<open>
  A \<open>gloo.FrameBuffer\<close> as the canvas uses it: its identity and the first two entries
  \<open>(h, w)\<close> of \<open>fbo.color_buffer.shape\<close>.
\<close>

record framebuffer =
  fbo_id :: nat
  color_buffer_shape :: "int \<times> int"

text \<open>
  The GL layer (\<open>vispy.gloo\<close>) is an external collaborator of the canvas. Its calls
  are recorded in the canvas (\<open>gl_calls\<close>); whether a call raises is given by
  \<open>gl_context\<close>: \<open>None\<close> for a normal return, \<open>Some e\<close> when the call raises \<open>e\<close>.
\<close>

datatype gl_call = SetViewport viewport | Activate nat

record gl_context =
  set_viewport :: "viewport \<Rightarrow> error option"
  activate :: "framebuffer \<Rightarrow> error option"

text \<open>The arguments of the last \<open>TransformSystem.auto_configure\<close> call.\<close>

record transform_config =
  tc_viewport :: "viewport option"
  tc_fbo_size :: "(int \<times> int) option"
  tc_fbo_rect :: "(int \<times> int \<times> int \<times> int) option"

text \<open>
  The original mouse event (\<open>type\<close>, \<open>pos\<close>, \<open>handled\<close>) and the
  \<open>SceneMouseEvent\<close> built from it, carrying the picked visual.
\<close>

record mouse_event =
  etype :: string
  pos :: "int \<times> int"
  handled :: bool

record scene_mouse_event =
  se_event :: mouse_event
  se_visual :: nat
  se_handled :: bool

text \<open>
  The fields of \<open>SceneCanvas\<close> set in \<open>__init__\<close> (lines 118-126). Visuals and nodes
  are referred to by identity; \<open>_draw_order\<close> is the dictionary from a visual to its
  cached draw order; \<open>update_count\<close> counts the calls of \<open>self.update()\<close>.
\<close>

record canvas =
  scene :: node
  draw_order :: "nat \<rightharpoonup> (node \<times> bool) list"
  fb_stack :: "(framebuffer \<times> (int \<times> int) \<times> (int \<times> int)) list"
  vp_stack :: "viewport list"
  mouse_handler :: "nat option"
  transforms :: transform_config
  gl_calls :: "gl_call list"
  update_count :: nat

text \<open>
  \<open>SceneCanvas.draw_visual\<close> (lines 237-274), after \<open>self.set_current()\<close>. The order
  is looked up in the cache and, when missing, generated by \<open>self._generate_draw_order()\<close>, which is called
  without an argument and so always starts at \<open>self._scene\<close>. Line 256 reads
  \<open>order[2][0]\<close>, which raises \<open>IndexError\<close> when the order has fewer than three
  entries; the transform lookup on that node is taken to return normally. The result
  is the exception raised or the sequence of \<open>draw()\<close> calls made, with the canvas as
  the call leaves it.
\<close>

definition draw_visual :: "canvas \<Rightarrow> node \<Rightarrow> (error + node list) \<times> canvas" where
  "draw_visual c visual =
     (let c1 = (if draw_order c (node_id visual) = None
                then c\<lparr>draw_order :=
                        (draw_order c)(node_id visual \<mapsto> generate_draw_order (scene c))\<rparr>
                else c)
      in case draw_order c1 (node_id visual) of
           None \<Rightarrow> (Inl KeyError, c1)
         | Some order \<Rightarrow>
             (if length order \<le> 2 then (Inl IndexError, c1)
              else (case draw_loop order [] None [] of
                      Inl e \<Rightarrow> (Inl e, c1)
                    | Inr (stack, invisible_node, draws) \<Rightarrow> (Inr draws, c1))))"

text \<open>\<open>SceneCanvas._update_transforms\<close> (lines 440-456).\<close>

definition update_transforms :: "canvas \<Rightarrow> canvas" where
  "update_transforms c =
     (let (fb_size, fb_rect) =
            (if length (fb_stack c) = 0 then (None, None)
             else (case last (fb_stack c) of
                     (fb, (ox, oy), (sw, sh)) \<Rightarrow> (Some (sw, sh), Some (ox, oy, sw, sh))));
          viewport = (if length (vp_stack c) = 0 then None else Some (last (vp_stack c)))
      in c\<lparr>transforms :=
             \<lparr>tc_viewport = viewport, tc_fbo_size = fb_size, tc_fbo_rect = fb_rect\<rparr>\<rparr>)"

text \<open>
  Lines 363-370 of \<open>push_viewport\<close>: a negative width is added to \<open>x\<close> and negated, a
  negative height is added to \<open>y\<close> and negated. Python integers are unbounded.
\<close>

definition normalize_viewport :: "viewport \<Rightarrow> viewport" where
  "normalize_viewport viewport =
     (case viewport of (x, y, w, h) \<Rightarrow>
        (let (x1, w1) = (if w < 0 then (x + w, w * (- 1)) else (x, w));
             (y1, h1) = (if h < 0 then (y + h, h * (- 1)) else (y, h))
         in (x1, y1, w1, h1)))"

text \<open>
  \<open>SceneCanvas.push_viewport\<close> (lines 354-379): append, call \<open>set_viewport\<close>; a bare
  \<open>except:\<close> pops and re-raises whatever was raised; otherwise the transforms are
  reconfigured. The result is the exception raised, if any, and the canvas after the
  call.
\<close>

definition push_viewport :: "gl_context \<Rightarrow> canvas \<Rightarrow> viewport \<Rightarrow> error option \<times> canvas" where
  "push_viewport gl c viewport =
     (let vp = normalize_viewport viewport;
          c1 = c\<lparr>vp_stack := vp_stack c @ [vp]\<rparr>;
          c2 = c1\<lparr>gl_calls := gl_calls c1 @ [SetViewport vp]\<rparr>
      in case set_viewport gl vp of
           Some e \<Rightarrow> (Some e, c2\<lparr>vp_stack := butlast (vp_stack c2)\<rparr>)
         | None \<Rightarrow> (None, update_transforms c2))"

text \<open>
  \<open>SceneCanvas.push_fbo\<close> (lines 394-416): append, then inside \<open>try\<close> activate the
  framebuffer and push the viewport \<open>(0, 0, w, h)\<close>; \<open>except Exception\<close> pops the
  framebuffer stack and re-raises; an exception outside \<open>Exception\<close> passes the handler
  by.
\<close>

definition push_fbo ::
  "gl_context \<Rightarrow> canvas \<Rightarrow> framebuffer \<Rightarrow> int \<times> int \<Rightarrow> int \<times> int \<Rightarrow> error option \<times> canvas" where
  "push_fbo gl c fbo offset csize =
     (let c1 = c\<lparr>fb_stack := fb_stack c @ [(fbo, offset, csize)]\<rparr>;
          c2 = c1\<lparr>gl_calls := gl_calls c1 @ [Activate (fbo_id fbo)]\<rparr>;
          (raised, c3) =
            (case activate gl fbo of
               Some e \<Rightarrow> (Some e, c2)
             | None \<Rightarrow> (case color_buffer_shape fbo of (h, w) \<Rightarrow> push_viewport gl c2 (0, 0, w, h)))
      in case raised of
           Some e \<Rightarrow>
             (if is_Exception e then (Some e, c3\<lparr>fb_stack := butlast (fb_stack c3)\<rparr>)
              else (Some e, c3))
         | None \<Rightarrow> (None, update_transforms c3))"

section \<open>Picking and mouse events\<close>

type_synonym pixel = "8 word \<times> 8 word \<times> 8 word \<times> 8 word"

text \<open>\<open>struct.pack('<4B', r, g, b, a)\<close>: the four unsigned bytes in this order.\<close>

definition pack_4B :: "pixel \<Rightarrow> 8 word list" where
  "pack_4B px = (case px of (r, g, b, a) \<Rightarrow> [r, g, b, a])"

text \<open>
  \<open>struct.unpack('<I', bytes)[0]\<close>: a little-endian unsigned 32-bit integer, the first
  byte the least significant; a buffer that is not four bytes long raises
  \<open>struct.error\<close>.
\<close>

fun unpack_I :: "8 word list \<Rightarrow> error + nat" where
  "unpack_I [b0, b1, b2, b3] =
     Inr (unat b0 + 256 * unat b1 + 65536 * unat b2 + 16777216 * unat b3)"
| "unpack_I _ = Inl StructError"

text \<open>
  \<open>SceneCanvas.visual_at\<close> (lines 322-335). The picking pass (the transform of \<open>pos\<close>
  to the framebuffer and \<open>self.render\<close> of one pixel there) runs on the GL layer and is
  the parameter \<open>render\<close>: the pixel \<open>img[0, 0]\<close> read back for a canvas position, or
  the exception the pass raises. \<open>visual_ids\<close> is the registry
  \<open>VisualNode._visual_ids\<close>, read with \<open>.get(id, None)\<close>.
\<close>

definition visual_at ::
  "(nat \<rightharpoonup> nat) \<Rightarrow> (int \<times> int \<Rightarrow> error + pixel) \<Rightarrow> int \<times> int \<Rightarrow> error + nat option" where
  "visual_at visual_ids render p =
     (case render p of
        Inl e \<Rightarrow> Inl e
      | Inr img00 \<Rightarrow>
          (case unpack_I (pack_4B img00) of
             Inl e \<Rightarrow> Inl e
           | Inr ident \<Rightarrow> Inr (visual_ids ident)))"

text \<open>
  \<open>SceneCanvas._process_mouse_event\<close> (lines 296-320). \<open>SceneMouseEvent\<close> is the
  constructor of the scene-level event, imported from \<open>vispy.scene.events\<close>.
  \<open>emit\<close> stands for the event emitters of the visuals, \<open>getattr(picked.events,
  event.type)\<close>: line 316, the only place that would call it, is commented out in the
  source, so the function never applies it. The result is the exception raised, or the
  canvas and the original event after the call.
\<close>

definition process_mouse_event ::
  "(nat \<rightharpoonup> nat) \<Rightarrow> (int \<times> int \<Rightarrow> error + pixel)
     \<Rightarrow> (mouse_event \<Rightarrow> nat \<Rightarrow> scene_mouse_event)
     \<Rightarrow> (nat \<Rightarrow> string \<Rightarrow> scene_mouse_event \<Rightarrow> scene_mouse_event)
     \<Rightarrow> canvas \<Rightarrow> mouse_event \<Rightarrow> error + (canvas \<times> mouse_event)" where
  "process_mouse_event visual_ids render SceneMouseEvent emit c event =
     (case visual_at visual_ids render (pos event) of
        Inl e \<Rightarrow> Inl e
      | Inr printed \<Rightarrow>
          (case (if mouse_handler c = None then
                   (if etype event = ''mouse_press'' then
                      (case visual_at visual_ids render (pos event) of
                         Inl e \<Rightarrow> Inl e
                       | Inr picked \<Rightarrow> Inr (picked, c\<lparr>mouse_handler := picked\<rparr>))
                    else Inr (None, c))
                 else
                   Inr (mouse_handler c,
                        if etype event = ''mouse_release'' then c\<lparr>mouse_handler := None\<rparr>
                        else c)) of
             Inl e \<Rightarrow> Inl e
           | Inr (None, c1) \<Rightarrow> Inr (c1, event)
           | Inr (Some picked, c1) \<Rightarrow>
               (let scene_event = SceneMouseEvent event picked;
                    c2 = c1\<lparr>update_count := update_count c1 + 1\<rparr>
                in Inr (c2, event\<lparr>handled := se_handled scene_event\<rparr>))))"

section \<open>Compound visuals (vispy/visuals/visual.py)\<close>

text \<open>
  A sub-visual of a \<open>CompoundVisual\<close>: its \<open>visible\<close> attribute and what its
  \<open>bounds\<close> would give on each axis.
\<close>

record subvisual =
  sv_visible :: bool
  sv_bounds :: "int \<Rightarrow> real \<times> real"

text \<open>
  \<open>CompoundVisual._compute_bounds\<close> (lines 483-492). For a visible sub-visual the
  loop body starts with \<open>vb = b.bounds(axis, view)\<close>; no name \<open>b\<close> is bound in the
  function or the module (the loop variable is \<open>v\<close>), so evaluating it raises
  \<open>NameError\<close> and the lines that would join the bounds are never reached.
\<close>

fun compute_bounds_loop ::
  "subvisual list \<Rightarrow> int \<Rightarrow> (real \<times> real) option \<Rightarrow> error + (real \<times> real) option" where
  "compute_bounds_loop [] axis bounds = Inr bounds"
| "compute_bounds_loop (v # vs) axis bounds =
     (if sv_visible v then Inl (NameError ''b'')
      else compute_bounds_loop vs axis bounds)"

definition compute_bounds :: "subvisual list \<Rightarrow> int \<Rightarrow> error + (real \<times> real) option" where
  "compute_bounds subvisuals axis = compute_bounds_loop subvisuals axis None"

text \<open>
  The union the specification asks of \<open>CompoundVisual\<close> bounds, written from its words
  for comparison with \<open>compute_bounds\<close>: over the visible sub-visuals, the minimum of
  the lower bounds and the maximum of the upper bounds; \<open>None\<close> when none is visible.
\<close>

fun spec_bounds_union :: "subvisual list \<Rightarrow> int \<Rightarrow> (real \<times> real) option" where
  "spec_bounds_union [] axis = None"
| "spec_bounds_union (v # vs) axis =
     (if sv_visible v then
        (case spec_bounds_union vs axis of
           None \<Rightarrow> Some (sv_bounds v axis)
         | Some (lo, hi) \<Rightarrow> Some (min (fst (sv_bounds v axis)) lo, max (snd (sv_bounds v axis)) hi))
      else spec_bounds_union vs axis)"

section \<open>The class body of Visual\<close>

text \<open>
  \<open>VisualShare\<close> with its bounds cache, and a visual instance as a dictionary of the
  attributes that hold a \<open>VisualShare\<close> (\<open>BaseVisual.__init__\<close> sets \<open>_vshare\<close>).
\<close>

record visual_share =
  bounds :: "int \<rightharpoonup> real \<times> real"

record visual_instance =
  attrs :: "string \<rightharpoonup> visual_share"

type_synonym py_method =
  "visual_instance \<Rightarrow> int list \<Rightarrow> (error + (real \<times> real) option) \<times> visual_instance"

text \<open>\<open>Visual._compute_bounds\<close> (lines 278-282) raises \<open>NotImplementedError\<close>.\<close>

definition Visual_compute_bounds :: "visual_instance \<Rightarrow> int \<Rightarrow> error + real \<times> real" where
  "Visual_compute_bounds self axis = Inl NotImplementedError"

text \<open>
  The first \<open>def bounds(self, axis)\<close> of class \<open>Visual\<close> (lines 272-276). It reads the
  attribute \<open>vshare\<close> (not \<open>_vshare\<close>), looks the axis up in the cache and fills the
  cache on a miss. A call with another number of arguments raises \<open>TypeError\<close>.
\<close>

fun Visual_bounds_axis :: py_method where
  "Visual_bounds_axis self [axis] =
     (case attrs self ''vshare'' of
        None \<Rightarrow> (Inl (AttributeError ''vshare''), self)
      | Some share \<Rightarrow>
          (case bounds share axis of
             Some b \<Rightarrow> (Inr (Some b), self)
           | None \<Rightarrow>
               (case Visual_compute_bounds self axis of
                  Inl e \<Rightarrow> (Inl e, self)
                | Inr b \<Rightarrow>
                    (Inr (Some b),
                     self\<lparr>attrs := (attrs self)
                        (''vshare'' \<mapsto> share\<lparr>bounds := (bounds share)(axis \<mapsto> b)\<rparr>)\<rparr>))))"
| "Visual_bounds_axis self args = (Inl (TypeError ''bounds''), self)"

text \<open>The second \<open>def bounds(self)\<close> of class \<open>Visual\<close> (lines 339-341).\<close>

fun Visual_bounds :: py_method where
  "Visual_bounds self [] = (Inr None, self)"
| "Visual_bounds self args = (Inl (TypeError ''bounds''), self)"

text \<open>\<open>BaseVisual.bounds(self, axis)\<close> (lines 169-170).\<close>

fun BaseVisual_bounds :: py_method where
  "BaseVisual_bounds self [axis] = (Inl NotImplementedError, self)"
| "BaseVisual_bounds self args = (Inl (TypeError ''bounds''), self)"

text \<open>
  Executing a class body binds each \<open>def\<close> to its name in the class namespace, in
  source order; binding a name again replaces the earlier binding.
\<close>

definition class_namespace :: "(string \<times> py_method) list \<Rightarrow> (string \<rightharpoonup> py_method)" where
  "class_namespace body = foldl (\<lambda>ns (name, m). ns(name \<mapsto> m)) Map.empty body"

text \<open>The \<open>bounds\<close> statements of the two class bodies, in source order.\<close>

definition Visual_body :: "(string \<times> py_method) list" where
  "Visual_body = [(''bounds'', Visual_bounds_axis), (''bounds'', Visual_bounds)]"

definition BaseVisual_body :: "(string \<times> py_method) list" where
  "BaseVisual_body = [(''bounds'', BaseVisual_bounds)]"

text \<open>
  Attribute lookup of a method on an instance: the first class of the method
  resolution order whose namespace binds the name; \<open>Visual\<close> comes before
  \<open>BaseVisual\<close>.
\<close>

fun lookup_method :: "(string \<rightharpoonup> py_method) list \<Rightarrow> string \<Rightarrow> py_method option" where
  "lookup_method [] name = None"
| "lookup_method (ns # mro) name =
     (case ns name of Some m \<Rightarrow> Some m | None \<Rightarrow> lookup_method mro name)"

definition Visual_mro :: "(string \<rightharpoonup> py_method) list" where
  "Visual_mro = [class_namespace Visual_body, class_namespace BaseVisual_body]"

definition call_method ::
  "(string \<rightharpoonup> py_method) list \<Rightarrow> string \<Rightarrow> visual_instance \<Rightarrow> int list
     \<Rightarrow> (error + (real \<times> real) option) \<times> visual_instance" where
  "call_method mro name self args =
     (case lookup_method mro name of
        None \<Rightarrow> (Inl (AttributeError name), self)
      | Some m \<Rightarrow> m self args)"

section \<open>The ellipse visual (vispy/visuals/ellipse.py)\<close>

text \<open>The \<open>radius\<close> argument: a number, or a list or tuple of numbers.\<close>

datatype radius_arg = Scalar real | Seq "real list"

text \<open>
  The state of an \<open>EllipseVisual\<close>: the five fields set in \<open>__init__\<close>, whether the
  face and border colours are blank, and the data last handed to \<open>_mesh.set_data\<close> and
  \<open>_border.set_data\<close>. Python floats are stood for by reals; the model stores and
  passes them on and computes nothing with them.
\<close>

record ellipse =
  center :: "(real \<times> real) option"
  radius :: radius_arg
  start_angle :: real
  span_angle :: real
  num_segments :: int
  color_is_blank :: bool
  border_color_is_blank :: bool
  mesh_vertices :: "(real \<times> real) list option"
  border_pos :: "(real \<times> real) list option"

text \<open>
  \<open>EllipseVisual._generate_vertices\<close> (lines 59-93). The check of the radius is the
  function's own; the numpy computation of the vertex array from the centre, the two
  radii, the angles and the segment count is the parameter \<open>polar\<close>, which may raise.
\<close>

type_synonym polar =
  "real \<times> real \<Rightarrow> real \<Rightarrow> real \<Rightarrow> real \<Rightarrow> real \<Rightarrow> int \<Rightarrow> error + (real \<times> real) list"

definition generate_vertices ::
  "polar \<Rightarrow> real \<times> real \<Rightarrow> radius_arg \<Rightarrow> real \<Rightarrow> real \<Rightarrow> int \<Rightarrow> error + (real \<times> real) list" where
  "generate_vertices np c r start_a span_a n =
     (case r of
        Seq rs \<Rightarrow>
          (if length rs = 2 then np c (rs ! 0) (rs ! 1) start_a span_a n
           else Inl (ValueError ''radius must be float or 2 value tuple/list''))
      | Scalar x \<Rightarrow> np c x x start_a span_a n)"

text \<open>
  \<open>EllipseVisual._update_vertices\<close> (lines 142-169): nothing happens without a centre;
  otherwise the vertices are generated and handed to the mesh and to the border, the
  latter closed with its first vertex. The result is the exception raised, if any, and
  the visual after the call.
\<close>

definition update_vertices :: "polar \<Rightarrow> ellipse \<Rightarrow> error option \<times> ellipse" where
  "update_vertices np e =
     (case center e of
        None \<Rightarrow> (None, e)
      | Some c \<Rightarrow>
          (case generate_vertices np c (radius e) (start_angle e) (span_angle e)
                  (num_segments e) of
             Inl err \<Rightarrow> (Some err, e)
           | Inr vertices \<Rightarrow>
               (let e1 = (if \<not> color_is_blank e then e\<lparr>mesh_vertices := Some vertices\<rparr>
                          else e);
                    e2 = (if \<not> border_color_is_blank e1
                          then e1\<lparr>border_pos := Some (vertices @ take 1 vertices)\<rparr>
                          else e1)
                in (None, e2))))"

text \<open>The \<open>radius\<close> setter (lines 101-104): assign, then update the vertices.\<close>

definition radius_setter :: "polar \<Rightarrow> ellipse \<Rightarrow> radius_arg \<Rightarrow> error option \<times> ellipse" where
  "radius_setter np e r = update_vertices np (e\<lparr>radius := r\<rparr>)"

text \<open>
  The \<open>num_segments\<close> setter (lines 134-140): a count below 1 raises before anything
  is assigned.
\<close>

definition num_segments_setter :: "polar \<Rightarrow> ellipse \<Rightarrow> int \<Rightarrow> error option \<times> ellipse" where
  "num_segments_setter np e n =
     (if n < 1 then (Some (ValueError ''EllipseVisual must consist of more than 1 segment''), e)
      else update_vertices np (e\<lparr>num_segments := n\<rparr>))"

text \<open>
  \<open>EllipseVisual.__init__\<close> (lines 43-57): the fields are assigned as given, the
  polygon base class sets up mesh and border, and the vertices are updated. An
  exception leaves no object.
\<close>

definition EllipseVisual ::
  "polar \<Rightarrow> (real \<times> real) option \<Rightarrow> bool \<Rightarrow> bool \<Rightarrow> radius_arg \<Rightarrow> real \<Rightarrow> real \<Rightarrow> int
     \<Rightarrow> error + ellipse" where
  "EllipseVisual np c blank border_blank r start_a span_a n =
     (case update_vertices np
             \<lparr>center = c, radius = r, start_angle = start_a, span_angle = span_a,
              num_segments = n, color_is_blank = blank,
              border_color_is_blank = border_blank,
              mesh_vertices = None, border_pos = None\<rparr> of
        (Some err, e) \<Rightarrow> Inl err
      | (None, e) \<Rightarrow> Inr e)"

section \<open>Example inputs\<close>

text \<open>
  The scene of the specification's scenario: a root with a visible child \<open>A\<close> and an
  invisible child \<open>B\<close> that has a visible child \<open>C\<close>.
\<close>

definition node_C :: node where
  "node_C = Node 3 True True []"

definition node_B :: node where
  "node_B = Node 2 False True [node_C]"

definition node_A :: node where
  "node_A = Node 1 True True []"

definition example_scene :: node where
  "example_scene = Node 0 True True [node_A, node_B]"

definition empty_canvas :: "node \<Rightarrow> canvas" where
  "empty_canvas r =
     \<lparr>scene = r, draw_order = Map.empty, fb_stack = [], vp_stack = [],
      mouse_handler = None,
      transforms = \<lparr>tc_viewport = None, tc_fbo_size = None, tc_fbo_rect = None\<rparr>,
      gl_calls = [], update_count = 0\<rparr>"

text \<open>The same canvas after a first frame: the order of the scene is cached for its root.\<close>

definition cached_canvas :: canvas where
  "cached_canvas =
     (empty_canvas example_scene)
       \<lparr>draw_order := [0 \<mapsto> generate_draw_order example_scene]\<rparr>"

text \<open>A GL layer on which every call returns normally, and one on which every call raises.\<close>

definition gl_ok :: gl_context where
  "gl_ok = \<lparr>set_viewport = (\<lambda>vp. None), activate = (\<lambda>fbo. None)\<rparr>"

definition gl_failing :: gl_context where
  "gl_failing = \<lparr>set_viewport = (\<lambda>vp. Some (RuntimeError ''viewport'')),
                  activate = (\<lambda>fbo. Some (RuntimeError ''framebuffer''))\<rparr>"

definition gl_viewport_failing :: gl_context where
  "gl_viewport_failing = \<lparr>set_viewport = (\<lambda>vp. Some (RuntimeError ''viewport'')),
                           activate = (\<lambda>fbo. None)\<rparr>"

definition example_fbo :: framebuffer where
  "example_fbo = \<lparr>fbo_id = 1, color_buffer_shape = (1, 1)\<rparr>"

text \<open>A press at a position where the picking pass reads identifier 7, registered for visual 42.\<close>

definition press_event :: mouse_event where
  "press_event = \<lparr>etype = ''mouse_press'', pos = (5, 5), handled = False\<rparr>"

definition example_ids :: "nat \<rightharpoonup> nat" where
  "example_ids = [7 \<mapsto> 42]"

definition example_render :: "int \<times> int \<Rightarrow> error + pixel" where
  "example_render p = Inr (7, 0, 0, 0)"

text \<open>
  A \<open>SceneMouseEvent\<close> constructor that starts the event unhandled, and visuals whose
  handlers mark every event they receive as handled.
\<close>

definition new_scene_event :: "mouse_event \<Rightarrow> nat \<Rightarrow> scene_mouse_event" where
  "new_scene_event ev v = \<lparr>se_event = ev, se_visual = v, se_handled = False\<rparr>"

definition handling_emit :: "nat \<Rightarrow> string \<Rightarrow> scene_mouse_event \<Rightarrow> scene_mouse_event" where
  "handling_emit v ty ev = ev\<lparr>se_handled := True\<rparr>"

text \<open>A compound of one visible sub-visual with bounds \<open>(0, 1)\<close> on every axis.\<close>

definition example_subvisual :: subvisual where
  "example_subvisual = \<lparr>sv_visible = True, sv_bounds = (\<lambda>axis. (0, 1))\<rparr>"

text \<open>An ellipse with a centre, as \<open>EllipseVisual(center=(0, 0), radius=(0.1, 0.1))\<close> has.\<close>

definition example_ellipse :: ellipse where
  "example_ellipse =
     \<lparr>center = Some (0, 0), radius = Seq [1 / 10, 1 / 10], start_angle = 0,
      span_angle = 360, num_segments = 100, color_is_blank = False,
      border_color_is_blank = True, mesh_vertices = None, border_pos = None\<rparr>"

section \<open>Properties of the draw order\<close>

lemma length_forest:
  assumes "\<And>c. c \<in> set cs \<Longrightarrow> length (generate_draw_order c) = 2 * length (nodes c)"
  shows "length (concat (map generate_draw_order cs)) = 2 * length (concat (map nodes cs))"
  using assms by (induction cs) simp_all

lemma length_generate_draw_order: "length (generate_draw_order t) = 2 * length (nodes t)"
proof (induction t)
  case (Node i v d cs)
  then show ?case using length_forest [of cs] by simp
qed

lemma count_forest:
  assumes "\<And>c. c \<in> set cs \<Longrightarrow> count_list (generate_draw_order c) (n, b) = count_list (nodes c) n"
  shows "count_list (concat (map generate_draw_order cs)) (n, b) = count_list (concat (map nodes cs)) n"
  using assms by (induction cs) simp_all

lemma count_generate_draw_order:
  "count_list (generate_draw_order t) (n, b) = count_list (nodes t) n"
proof (induction t)
  case (Node i v d cs)
  then show ?case using count_forest [of cs n b] by (cases b) auto
qed

lemma self_in_nodes: "t \<in> set (nodes t)"
  by (cases t) simp

lemma distinct_ids_distinct_nodes: "distinct (map node_id (nodes t)) \<Longrightarrow> distinct (nodes t)"
  by (simp add: distinct_map)

lemma segment_generate_draw_order:
  "n \<in> set (nodes t) \<Longrightarrow>
   \<exists>pre post. generate_draw_order t =
      pre @ (n, True) # concat (map generate_draw_order (children n)) @ (n, False) # post"
proof (induction t)
  case (Node i v d cs)
  show ?case
  proof (cases "n = Node i v d cs")
    case True
    then have "generate_draw_order (Node i v d cs) =
      [] @ (n, True) # concat (map generate_draw_order (children n)) @ (n, False) # []"
      by simp
    then show ?thesis by blast
  next
    case False
    with Node.prems obtain c where c: "c \<in> set cs" "n \<in> set (nodes c)" by auto
    from Node.IH [OF c] obtain pre post where seg:
      "generate_draw_order c =
         pre @ (n, True) # concat (map generate_draw_order (children n)) @ (n, False) # post"
      by blast
    from c(1) obtain cs1 cs2 where cs: "cs = cs1 @ c # cs2" by (auto dest: split_list)
    have "generate_draw_order (Node i v d cs) =
        ((Node i v d cs, True) # concat (map generate_draw_order cs1) @ pre)
        @ (n, True) # concat (map generate_draw_order (children n))
        @ (n, False) # (post @ concat (map generate_draw_order cs2) @ [(Node i v d cs, False)])"
      by (simp add: cs seg)
    then show ?thesis by blast
  qed
qed

lemma count_list_distinct: "distinct xs \<Longrightarrow> count_list xs x = (if x \<in> set xs then 1 else 0)"
  by (induction xs) auto

text \<open>
  Claim C1. For every scene tree the draw order has exactly two entries per node:
  its length is twice the number of nodes, and \<open>(n, True)\<close> and \<open>(n, False)\<close> each occur
  as often as \<open>n\<close> occurs in the tree, that is once when the nodes are distinct objects.
  For every node \<open>n\<close> of the tree the order contains, as one contiguous block, the entry
  \<open>(n, True)\<close>, then the complete draw orders of the children of \<open>n\<close> one after the
  other, then \<open>(n, False)\<close>: the enter entry comes before every entry of the children
  and the exit entry directly after the last child's block.
\<close>

theorem generate_draw_order_two_entries_nested:
  "length (generate_draw_order t) = 2 * length (nodes t)
   \<and> (\<forall>n b. count_list (generate_draw_order t) (n, b) = count_list (nodes t) n)
   \<and> (distinct (map node_id (nodes t)) \<longrightarrow>
        (\<forall>n \<in> set (nodes t). count_list (generate_draw_order t) (n, True) = 1
                           \<and> count_list (generate_draw_order t) (n, False) = 1))
   \<and> (\<forall>n \<in> set (nodes t). \<exists>pre post. generate_draw_order t =
        pre @ (n, True) # concat (map generate_draw_order (children n)) @ (n, False) # post)"
  using length_generate_draw_order count_generate_draw_order segment_generate_draw_order
    count_list_distinct [OF distinct_ids_distinct_nodes]
  by simp

theorem generate_draw_order_two_entries_nested_witness:
  "distinct (map node_id (nodes example_scene)) \<and> node_B \<in> set (nodes example_scene)
   \<and> count_list (generate_draw_order example_scene) (node_B, True) = 1
   \<and> count_list (generate_draw_order example_scene) (node_B, False) = 1
   \<and> (\<exists>pre post. generate_draw_order example_scene =
         pre @ (node_B, True) # concat (map generate_draw_order (children node_B))
           @ (node_B, False) # post)"
proof -
  have d: "distinct (map node_id (nodes example_scene))"
    by (simp add: example_scene_def node_A_def node_B_def node_C_def)
  have m: "node_B \<in> set (nodes example_scene)"
    by (simp add: example_scene_def node_A_def node_B_def node_C_def)
  from generate_draw_order_two_entries_nested [of example_scene] d m show ?thesis by blast
qed

section \<open>Properties of the draw loop\<close>

lemma loop_hidden_forest:
  assumes "\<And>c rest stack draws. c \<in> set cs \<Longrightarrow> node_id m \<notin> node_id ` set (nodes c) \<Longrightarrow>
             draw_loop (generate_draw_order c @ rest) stack (Some m) draws
               = draw_loop rest stack (Some m) draws"
    and "node_id m \<notin> node_id ` set (concat (map nodes cs))"
  shows "draw_loop (concat (map generate_draw_order cs) @ rest) stack (Some m) draws
           = draw_loop rest stack (Some m) draws"
  using assms
proof (induction cs)
  case Nil
  show ?case by simp
next
  case (Cons c cs)
  have a: "node_id m \<notin> node_id ` set (nodes c)"
    and b: "node_id m \<notin> node_id ` set (concat (map nodes cs))"
    using Cons.prems(2) by auto
  have "draw_loop (generate_draw_order c @ concat (map generate_draw_order cs) @ rest)
          stack (Some m) draws
        = draw_loop (concat (map generate_draw_order cs) @ rest) stack (Some m) draws"
    using Cons.prems(1) [of c] a by simp
  also have "\<dots> = draw_loop rest stack (Some m) draws"
    using Cons.IH Cons.prems(1) b by simp
  finally show ?case by simp
qed

lemma loop_hidden:
  "node_id m \<notin> node_id ` set (nodes t) \<Longrightarrow>
   draw_loop (generate_draw_order t @ rest) stack (Some m) draws
     = draw_loop rest stack (Some m) draws"
proof (induction t arbitrary: rest stack draws)
  case (Node i v d cs)
  have m: "node_id m \<noteq> i" "node_id m \<notin> node_id ` set (concat (map nodes cs))"
    using Node.prems by auto
  have "draw_loop (concat (map generate_draw_order cs) @ (Node i v d cs, False) # rest)
          (stack @ [Node i v d cs]) (Some m) draws
        = draw_loop ((Node i v d cs, False) # rest) (stack @ [Node i v d cs]) (Some m) draws"
    by (rule loop_hidden_forest [OF Node.IH m(2)]) auto
  then show ?case using m(1) by simp
qed

lemma loop_visible_forest:
  assumes "\<And>c rest stack draws. c \<in> set cs \<Longrightarrow> distinct (map node_id (nodes c)) \<Longrightarrow>
             draw_loop (generate_draw_order c @ rest) stack None draws
               = draw_loop rest stack None (draws @ drawn c)"
    and "distinct (map node_id (concat (map nodes cs)))"
  shows "draw_loop (concat (map generate_draw_order cs) @ rest) stack None draws
           = draw_loop rest stack None (draws @ concat (map drawn cs))"
  using assms
proof (induction cs arbitrary: draws)
  case Nil
  show ?case by simp
next
  case (Cons c cs)
  have a: "distinct (map node_id (nodes c))"
    and b: "distinct (map node_id (concat (map nodes cs)))"
    using Cons.prems(2) by auto
  have "draw_loop (generate_draw_order c @ concat (map generate_draw_order cs) @ rest)
          stack None draws
        = draw_loop (concat (map generate_draw_order cs) @ rest) stack None (draws @ drawn c)"
    using Cons.prems(1) [of c] a by simp
  also have "\<dots> = draw_loop rest stack None ((draws @ drawn c) @ concat (map drawn cs))"
    using Cons.IH [of "draws @ drawn c"] Cons.prems(1) b by simp
  finally show ?case by simp
qed

lemma loop_visible:
  "distinct (map node_id (nodes t)) \<Longrightarrow>
   draw_loop (generate_draw_order t @ rest) stack None draws
     = draw_loop rest stack None (draws @ drawn t)"
proof (induction t arbitrary: rest stack draws)
  case (Node i v d cs)
  let ?t = "Node i v d cs"
  have dc: "distinct (map node_id (concat (map nodes cs)))"
    and ni: "i \<notin> node_id ` set (concat (map nodes cs))"
    using Node.prems by auto
  show ?case
  proof (cases v)
    case True
    have "draw_loop (concat (map generate_draw_order cs) @ (?t, False) # rest)
            (stack @ [?t]) None (draws @ (if d then [?t] else []))
          = draw_loop ((?t, False) # rest) (stack @ [?t]) None
              ((draws @ (if d then [?t] else [])) @ concat (map drawn cs))"
      by (rule loop_visible_forest [OF Node.IH dc]) auto
    then show ?thesis using True by (cases d) simp_all
  next
    case False
    have "draw_loop (concat (map generate_draw_order cs) @ (?t, False) # rest)
            (stack @ [?t]) (Some ?t) draws
          = draw_loop ((?t, False) # rest) (stack @ [?t]) (Some ?t) draws"
      by (rule loop_hidden_forest [OF loop_hidden]) (use ni in auto)
    then show ?thesis using False by simp
  qed
qed

lemma draw_loop_generate:
  "distinct (map node_id (nodes t)) \<Longrightarrow>
   draw_loop (generate_draw_order t) [] None [] = Inr ([], None, drawn t)"
  using loop_visible [of t "[]" "[]" "[]"] by simp

lemma nodes_trans: "m \<in> set (nodes t) \<Longrightarrow> n \<in> set (nodes m) \<Longrightarrow> n \<in> set (nodes t)"
  by (induction t) auto

lemma hidden_subset: "set (hidden t) \<subseteq> set (nodes t)"
  by (induction t) auto

lemma hidden_iff:
  "n \<in> set (hidden t) \<longleftrightarrow> (\<exists>m \<in> set (nodes t). \<not> visible m \<and> n \<in> set (nodes m))"
proof (induction t)
  case (Node i v d cs)
  let ?t = "Node i v d cs"
  show ?case
  proof (cases v)
    case True
    have "n \<in> set (hidden ?t) \<longleftrightarrow> (\<exists>c \<in> set cs. n \<in> set (hidden c))"
      using True by simp
    also have "\<dots> \<longleftrightarrow> (\<exists>c \<in> set cs. \<exists>m \<in> set (nodes c). \<not> visible m \<and> n \<in> set (nodes m))"
      using Node.IH by blast
    also have "\<dots> \<longleftrightarrow> (\<exists>m \<in> set (nodes ?t). \<not> visible m \<and> n \<in> set (nodes m))"
      using True by auto
    finally show ?thesis .
  next
    case False
    have "n \<in> set (hidden ?t) \<longleftrightarrow> n \<in> set (nodes ?t)"
      using False by simp
    also have "\<dots> \<longleftrightarrow> (\<exists>m \<in> set (nodes ?t). \<not> visible m \<and> n \<in> set (nodes m))"
      using False nodes_trans [of _ ?t n] self_in_nodes [of ?t]
      by (metis node.sel(2))
    finally show ?thesis .
  qed
qed

lemma subseq_forest:
  assumes "\<And>c. c \<in> set cs \<Longrightarrow> subseq (f c) (g c)"
  shows "subseq (concat (map f cs)) (concat (map g cs))"
  using assms by (induction cs) (auto intro: list_emb_append_mono)

lemma drawn_subseq: "subseq (drawn t) (nodes t)"
proof (induction t)
  case (Node i v d cs)
  have "subseq (concat (map drawn cs)) (concat (map nodes cs))"
    using Node.IH by (rule subseq_forest)
  then show ?case by auto
qed

lemma drawn_subset: "set (drawn t) \<subseteq> set (nodes t)"
  using drawn_subseq [of t] by (auto dest: list_emb_set)

lemma subseq_keeps_distinct: "subseq xs ys \<Longrightarrow> distinct ys \<Longrightarrow> distinct xs"
  by (induction rule: list_emb.induct) (auto dest: list_emb_set)

lemma distinct_drawn: "distinct (map node_id (nodes t)) \<Longrightarrow> distinct (drawn t)"
  using subseq_keeps_distinct [OF drawn_subseq distinct_ids_distinct_nodes] .

lemma siblings_disjoint:
  assumes "distinct (map node_id (concat (map nodes cs)))"
    and "c \<in> set cs" and "c' \<in> set cs" and "n \<in> set (nodes c)" and "n \<in> set (nodes c')"
  shows "c = c'"
  using assms
proof (induction cs)
  case Nil
  then show ?case by simp
next
  case (Cons a cs)
  have d: "distinct (map node_id (concat (map nodes cs)))"
    and disj: "node_id ` set (nodes a) \<inter> node_id ` set (concat (map nodes cs)) = {}"
    using Cons.prems(1) by auto
  have out: "\<And>x. x \<in> set cs \<Longrightarrow> n \<in> set (nodes x) \<Longrightarrow> n \<notin> set (nodes a)"
    using disj by auto
  show ?case
    using Cons.IH [OF d] Cons.prems(2-5) out by auto
qed

lemma drawn_iff:
  "distinct (map node_id (nodes t)) \<Longrightarrow>
   n \<in> set (drawn t) \<longleftrightarrow> n \<in> set (nodes t) \<and> n \<notin> set (hidden t) \<and> has_draw n"
proof (induction t)
  case (Node i v d cs)
  let ?t = "Node i v d cs"
  have dc: "distinct (map node_id (concat (map nodes cs)))"
    and ni: "i \<notin> node_id ` set (concat (map nodes cs))"
    using Node.prems by auto
  have dch: "\<And>c. c \<in> set cs \<Longrightarrow> distinct (map node_id (nodes c))"
    using dc by (induction cs) auto
  have IH: "\<And>c. c \<in> set cs \<Longrightarrow>
      n \<in> set (drawn c) \<longleftrightarrow> n \<in> set (nodes c) \<and> n \<notin> set (hidden c) \<and> has_draw n"
    using Node.IH dch by blast
  have root: "\<And>c. c \<in> set cs \<Longrightarrow> ?t \<notin> set (nodes c)"
    using ni by force
  show ?case
  proof (cases v)
    case False
    then show ?thesis by auto
  next
    case True
    show ?thesis
    proof (cases "n = ?t")
      case eq: True
      have "?t \<notin> set (hidden ?t)"
        using True root hidden_subset by auto
      moreover have "?t \<in> set (drawn ?t) \<longleftrightarrow> d"
        using True root drawn_subset by auto
      ultimately show ?thesis using eq by simp
    next
      case neq: False
      show ?thesis
      proof
        assume "n \<in> set (drawn ?t)"
        then obtain c where c: "c \<in> set cs" "n \<in> set (drawn c)"
          using True neq by (auto split: if_splits)
        then have nc: "n \<in> set (nodes c)" "n \<notin> set (hidden c)" "has_draw n"
          using IH by auto
        have "n \<notin> set (hidden c')" if "c' \<in> set cs" for c'
        proof
          assume h: "n \<in> set (hidden c')"
          then have "n \<in> set (nodes c')" using hidden_subset by auto
          then have "c = c'" using siblings_disjoint [OF dc c(1) that nc(1)] by simp
          then show False using h nc(2) by simp
        qed
        then show "n \<in> set (nodes ?t) \<and> n \<notin> set (hidden ?t) \<and> has_draw n"
          using True c(1) nc by auto
      next
        assume a: "n \<in> set (nodes ?t) \<and> n \<notin> set (hidden ?t) \<and> has_draw n"
        then obtain c where c: "c \<in> set cs" "n \<in> set (nodes c)"
          using neq by auto
        have "n \<notin> set (hidden c)" using a True c(1) by auto
        then have "n \<in> set (drawn c)" using IH c a by blast
        then show "n \<in> set (drawn ?t)" using True c(1) by auto
      qed
    qed
  qed
qed

lemma count_drawn:
  assumes "distinct (map node_id (nodes t))" and "n \<in> set (nodes t)"
  shows "count_list (drawn t) n =
           (if (\<exists>m \<in> set (nodes t). \<not> visible m \<and> n \<in> set (nodes m)) \<or> \<not> has_draw n
            then 0 else 1)"
  using count_list_distinct [OF distinct_drawn [OF assms(1)], of n]
    drawn_iff [OF assms(1), of n] hidden_iff [of n t] assms(2)
  by auto

lemma order_longer_than_two:
  assumes "children t \<noteq> []"
  shows "\<not> length (generate_draw_order t) \<le> 2"
proof -
  obtain i v d cs where t: "t = Node i v d cs" by (cases t)
  obtain k ks where cs: "cs = k # ks" using assms t by (cases cs) auto
  have "length (nodes k) \<ge> 1" by (cases k) simp
  then have "length (nodes t) \<ge> 2" using t cs by simp
  then show ?thesis using length_generate_draw_order [of t] by simp
qed

lemma draw_visual_miss:
  assumes "distinct (map node_id (nodes t))" and "children t \<noteq> []"
    and "scene c = t" and "draw_order c (node_id v) = None"
  shows "draw_visual c v
    = (Inr (drawn t), c\<lparr>draw_order := (draw_order c)(node_id v \<mapsto> generate_draw_order t)\<rparr>)"
  using assms(3,4) order_longer_than_two [OF assms(2)] draw_loop_generate [OF assms(1)]
  by (simp add: draw_visual_def)

lemma draw_visual_cached:
  assumes "distinct (map node_id (nodes t))" and "children t \<noteq> []"
    and "draw_order c (node_id v) = Some (generate_draw_order t)"
  shows "draw_visual c v = (Inr (drawn t), c)"
  using assms(3) order_longer_than_two [OF assms(2)] draw_loop_generate [OF assms(1)]
  by (simp add: draw_visual_def)

text \<open>
  Claim C2. Let the nodes of the tree be distinct objects, and let every \<open>draw()\<close> of
  a node, a call into the visual, return. The loop of \<open>draw_visual\<close> over the tree's
  draw order runs to its end with an empty stack, and for every node \<open>n\<close> of the tree
  the number of \<open>draw()\<close> calls on \<open>n\<close> is 0 when \<open>n\<close> lies in the subtree of some
  node \<open>m\<close> whose \<open>visible\<close> flag is false (\<open>m = n\<close> included, and whatever the flag
  of \<open>n\<close> itself) or has no \<open>draw\<close> method, and 1 otherwise. The order walked has two
  entries per node whatever the flags are. \<open>draw_visual\<close> makes exactly these calls
  on every walk of a tree whose root has a child: when the order of the visual is not
  yet cached, it is generated from the scene, stored and walked; when it is cached,
  the cached order is walked and the canvas is left as it was. The cache holds
  references to the live nodes, so the order it holds is the order of the tree with
  the flags the nodes have at the time of the walk.
\<close>

theorem draw_loop_skips_invisible_subtrees:
  assumes "distinct (map node_id (nodes t))"
  shows "draw_loop (generate_draw_order t) [] None [] = Inr ([], None, drawn t)
    \<and> (\<forall>n \<in> set (nodes t).
          count_list (drawn t) n =
            (if (\<exists>m \<in> set (nodes t). \<not> visible m \<and> n \<in> set (nodes m)) \<or> \<not> has_draw n
             then 0 else 1))
    \<and> length (generate_draw_order t) = 2 * length (nodes t)
    \<and> (children t \<noteq> [] \<and> scene c = t \<and> draw_order c (node_id v) = None
          \<longrightarrow> draw_visual c v
                = (Inr (drawn t),
                   c\<lparr>draw_order := (draw_order c)(node_id v \<mapsto> generate_draw_order t)\<rparr>))
    \<and> (children t \<noteq> [] \<and> draw_order c (node_id v) = Some (generate_draw_order t)
          \<longrightarrow> draw_visual c v = (Inr (drawn t), c))"
  using draw_loop_generate [OF assms] count_drawn [OF assms] length_generate_draw_order
    draw_visual_miss [OF assms] draw_visual_cached [OF assms]
  by simp

theorem draw_loop_skips_invisible_subtrees_witness:
  "distinct (map node_id (nodes example_scene))
   \<and> draw_loop (generate_draw_order example_scene) [] None []
       = Inr ([], None, [example_scene, node_A])
   \<and> node_C \<in> set (nodes example_scene) \<and> node_C \<in> set (nodes node_B)
   \<and> visible node_C \<and> \<not> visible node_B
   \<and> count_list (drawn example_scene) node_C = 0
   \<and> count_list (drawn example_scene) node_A = 1
   \<and> length (generate_draw_order example_scene) = 8
   \<and> draw_visual (empty_canvas example_scene) example_scene
       = (Inr [example_scene, node_A], cached_canvas)
   \<and> draw_visual cached_canvas example_scene = (Inr [example_scene, node_A], cached_canvas)"
proof -
  have d: "distinct (map node_id (nodes example_scene))"
    by (simp add: example_scene_def node_A_def node_B_def node_C_def)
  have dr: "drawn example_scene = [example_scene, node_A]"
    by (simp add: example_scene_def node_A_def node_B_def node_C_def)
  have n: "length (nodes example_scene) = 4"
    by (simp add: example_scene_def node_A_def node_B_def node_C_def)
  have mem: "node_C \<in> set (nodes example_scene)" "node_C \<in> set (nodes node_B)"
    "node_B \<in> set (nodes example_scene)" "node_A \<in> set (nodes example_scene)"
    "visible node_C" "\<not> visible node_B"
    by (simp_all add: example_scene_def node_A_def node_B_def node_C_def)
  have cv: "children example_scene \<noteq> []"
    "scene (empty_canvas example_scene) = example_scene"
    "draw_order (empty_canvas example_scene) (node_id example_scene) = None"
    by (simp_all add: example_scene_def empty_canvas_def)
  have cc: "draw_order cached_canvas (node_id example_scene)
      = Some (generate_draw_order example_scene)"
    by (simp add: cached_canvas_def example_scene_def)
  have upd: "(empty_canvas example_scene)
      \<lparr>draw_order := (draw_order (empty_canvas example_scene))
         (node_id example_scene \<mapsto> generate_draw_order example_scene)\<rparr> = cached_canvas"
    by (simp add: cached_canvas_def empty_canvas_def example_scene_def)
  note T = draw_loop_skips_invisible_subtrees
    [OF d, of "empty_canvas example_scene" example_scene]
  note U = draw_loop_skips_invisible_subtrees [OF d, of cached_canvas example_scene]
  from T have loop: "draw_loop (generate_draw_order example_scene) [] None []
       = Inr ([], None, drawn example_scene)" by (rule conjunct1)
  from T mem have c: "count_list (drawn example_scene) node_C = 0" by auto
  from T have len: "length (generate_draw_order example_scene) = 2 * length (nodes example_scene)"
    by simp
  have na: "\<not> (\<exists>m \<in> set (nodes example_scene). \<not> visible m \<and> node_A \<in> set (nodes m))"
    "has_draw node_A"
    by (simp_all add: example_scene_def node_A_def node_B_def node_C_def)
  from T mem(4) na have a: "count_list (drawn example_scene) node_A = 1" by auto
  from T cv have "draw_visual (empty_canvas example_scene) example_scene
       = (Inr (drawn example_scene),
          (empty_canvas example_scene)
            \<lparr>draw_order := (draw_order (empty_canvas example_scene))
               (node_id example_scene \<mapsto> generate_draw_order example_scene)\<rparr>)"
    by blast
  then have miss: "draw_visual (empty_canvas example_scene) example_scene
       = (Inr (drawn example_scene), cached_canvas)"
    by (simp only: upd)
  from U cv(1) cc have hit: "draw_visual cached_canvas example_scene
       = (Inr (drawn example_scene), cached_canvas)"
    by blast
  show ?thesis using d loop c len mem a miss hit by (simp add: dr n)
qed

section \<open>draw_visual on a scene that is only a root\<close>

text \<open>
  Claim C3. For a scene that consists of a root node only, with nothing cached,
  \<open>draw_visual\<close> on the root computes the order \<open>[(root, True), (root, False)]\<close> and
  stores it in the cache, and then raises \<open>IndexError\<close> at \<open>order[2]\<close> (line 256)
  before the loop starts: the call does not complete and makes no \<open>draw()\<close> call,
  whatever the root's \<open>visible\<close> flag is and whether or not it has a \<open>draw\<close> method.
\<close>

theorem draw_visual_root_only_raises_IndexError:
  "generate_draw_order (Node i v d []) = [(Node i v d [], True), (Node i v d [], False)]
   \<and> draw_visual (c\<lparr>scene := Node i v d [], draw_order := Map.empty\<rparr>) (Node i v d [])
       = (Inl IndexError,
          c\<lparr>scene := Node i v d [],
            draw_order := [i \<mapsto> [(Node i v d [], True), (Node i v d [], False)]]\<rparr>)"
  by (simp add: draw_visual_def)

section \<open>Picking\<close>

lemma unat_byte_less: "unat (b :: 8 word) < 256"
  using unsigned_less [of b] by simp

lemma unpack_I_bound:
  "unat (b0 :: 8 word) + 256 * unat (b1 :: 8 word) + 65536 * unat (b2 :: 8 word)
     + 16777216 * unat (b3 :: 8 word) < 2 ^ 32"
  using unat_byte_less [of b0] unat_byte_less [of b1] unat_byte_less [of b2]
    unat_byte_less [of b3]
  by simp

lemma base256_split:
  fixes x y p q :: nat
  assumes "x < 256" "y < 256" "x + 256 * p = y + 256 * q"
  shows "x = y \<and> p = q"
proof -
  have "(x + 256 * p) mod 256 = x" using assms(1) by simp
  moreover have "(y + 256 * q) mod 256 = y" using assms(2) by simp
  ultimately have xy: "x = y" using assms(3) by simp
  then have "256 * p = 256 * q" using assms(3) by simp
  then have "p = q" by simp
  with xy show ?thesis by simp
qed

lemma unpack_I_inj:
  "unpack_I (pack_4B (a0, a1, a2, a3)) = unpack_I (pack_4B (b0, b1, b2, b3))
   \<longleftrightarrow> (a0, a1, a2, a3) = (b0, b1, b2, b3)"
proof
  assume "unpack_I (pack_4B (a0, a1, a2, a3)) = unpack_I (pack_4B (b0, b1, b2, b3))"
  then have eq: "unat a0 + 256 * (unat a1 + 256 * (unat a2 + 256 * unat a3))
      = unat b0 + 256 * (unat b1 + 256 * (unat b2 + 256 * unat b3))"
    by (simp add: pack_4B_def)
  have s0: "unat a0 = unat b0 \<and> unat a1 + 256 * (unat a2 + 256 * unat a3)
      = unat b1 + 256 * (unat b2 + 256 * unat b3)"
    using base256_split [OF unat_byte_less unat_byte_less eq] .
  then have s1: "unat a1 = unat b1 \<and> unat a2 + 256 * unat a3 = unat b2 + 256 * unat b3"
    using base256_split [OF unat_byte_less unat_byte_less, of a1 _ b1] by blast
  then have s2: "unat a2 = unat b2 \<and> unat a3 = unat b3"
    using base256_split [OF unat_byte_less unat_byte_less, of a2 _ b2] by blast
  show "(a0, a1, a2, a3) = (b0, b1, b2, b3)"
    using s0 s1 s2 by (simp add: word_unat_eq_iff)
next
  assume "(a0, a1, a2, a3) = (b0, b1, b2, b3)"
  then show "unpack_I (pack_4B (a0, a1, a2, a3)) = unpack_I (pack_4B (b0, b1, b2, b3))"
    by simp
qed

lemma visual_at_general:
  "render p = Inr (b0, b1, b2, b3) \<Longrightarrow>
   visual_at visual_ids render p
     = Inr (visual_ids (unat b0 + 256 * unat b1 + 65536 * unat b2 + 16777216 * unat b3))"
  by (simp add: visual_at_def pack_4B_def)

lemma visual_at_raises:
  "render p = Inl e \<Longrightarrow> visual_at visual_ids render p = Inl e"
  by (simp add: visual_at_def)

text \<open>
  Claim C4. For every position \<open>p\<close>, every registry and every pixel
  \<open>(b0, b1, b2, b3)\<close> that the picking pass reads back at \<open>p\<close>, \<open>visual_at\<close> returns
  the registry's entry for the little-endian unsigned 32-bit integer
  \<open>b0 + 2^8 b1 + 2^16 b2 + 2^24 b3\<close>, or \<open>None\<close> when the registry has none; when the
  picking pass raises, \<open>visual_at\<close> raises the same exception. The integer is below
  \<open>2^32\<close> and differs for different pixels. The bytes \<open>[4, 3, 2, 1]\<close> decode to
  \<open>0x01020304\<close>; the background pixel \<open>[0, 0, 0, 0]\<close> decodes to 0, and when no visual
  is registered under 0 the answer is \<open>None\<close>, not an exception.
\<close>

theorem visual_at_decodes_little_endian:
  "(render p = Inr (b0, b1, b2, b3) \<longrightarrow>
      visual_at visual_ids render p
        = Inr (visual_ids (unat b0 + 256 * unat b1 + 65536 * unat b2 + 16777216 * unat b3)))
   \<and> (render p = Inl e \<longrightarrow> visual_at visual_ids render p = Inl e)
   \<and> unpack_I (pack_4B (b0, b1, b2, b3))
     = Inr (unat b0 + 256 * unat b1 + 65536 * unat b2 + 16777216 * unat b3)
   \<and> unat b0 + 256 * unat b1 + 65536 * unat b2 + 16777216 * unat b3 < 2 ^ 32
   \<and> (unpack_I (pack_4B (a0, a1, a2, a3)) = unpack_I (pack_4B (b0, b1, b2, b3))
        \<longleftrightarrow> (a0, a1, a2, a3) = (b0, b1, b2, b3))
   \<and> unpack_I (pack_4B (4, 3, 2, 1)) = Inr 0x01020304
   \<and> (render p = Inr (4, 3, 2, 1)
        \<longrightarrow> visual_at visual_ids render p = Inr (visual_ids 0x01020304))
   \<and> unpack_I (pack_4B (0, 0, 0, 0)) = Inr 0
   \<and> (render p = Inr (0, 0, 0, 0) \<and> visual_ids 0 = None
        \<longrightarrow> visual_at visual_ids render p = Inr None)"
proof -
  have gen: "render p = Inr (b0, b1, b2, b3) \<longrightarrow>
      visual_at visual_ids render p
        = Inr (visual_ids (unat b0 + 256 * unat b1 + 65536 * unat b2 + 16777216 * unat b3))"
    using visual_at_general [of render p b0 b1 b2 b3 visual_ids] by blast
  have err: "render p = Inl e \<longrightarrow> visual_at visual_ids render p = Inl e"
    using visual_at_raises [of render p e visual_ids] by blast
  have dec: "unpack_I (pack_4B (b0, b1, b2, b3))
     = Inr (unat b0 + 256 * unat b1 + 65536 * unat b2 + 16777216 * unat b3)"
    by (simp add: pack_4B_def)
  have ex: "unpack_I (pack_4B (4, 3, 2, 1)) = Inr 0x01020304"
    "unpack_I (pack_4B (0, 0, 0, 0)) = Inr 0"
    by (simp_all add: pack_4B_def)
  have look: "render p = Inr (4, 3, 2, 1)
        \<longrightarrow> visual_at visual_ids render p = Inr (visual_ids 0x01020304)"
    "render p = Inr (0, 0, 0, 0) \<and> visual_ids 0 = None
        \<longrightarrow> visual_at visual_ids render p = Inr None"
    by (simp_all add: visual_at_def pack_4B_def)
  show ?thesis
    using gen err dec unpack_I_bound [of b0 b1 b2 b3]
      unpack_I_inj [of a0 a1 a2 a3 b0 b1 b2 b3] ex look
    by blast
qed

theorem visual_at_decodes_little_endian_witness:
  "visual_at [16909060 \<mapsto> 42] (\<lambda>p. Inr (4, 3, 2, 1)) (5, 5) = Inr (Some 42)
   \<and> visual_at example_ids (\<lambda>p. Inr (0, 0, 0, 0)) (5, 5) = Inr None
   \<and> visual_at example_ids example_render (5, 5) = Inr (Some 42)
   \<and> visual_at example_ids (\<lambda>p. Inr (7, 1, 0, 0)) (5, 5) = Inr None
   \<and> visual_at example_ids (\<lambda>p. Inl IndexError) (5, 5) = Inl IndexError"
proof -
  have a: "visual_at [16909060 \<mapsto> 42] (\<lambda>p. Inr (4, 3, 2, 1)) (5, 5) = Inr (Some 42)"
    using visual_at_decodes_little_endian
      [where render = "\<lambda>p. Inr (4, 3, 2, 1)" and p = "(5, 5)"
        and visual_ids = "[16909060 \<mapsto> 42]"]
    by simp
  have b: "visual_at example_ids (\<lambda>p. Inr (0, 0, 0, 0)) (5, 5) = Inr None"
    using visual_at_decodes_little_endian
      [where render = "\<lambda>p. Inr (0, 0, 0, 0)" and p = "(5, 5)"
        and visual_ids = example_ids]
    by (simp add: example_ids_def)
  have c: "visual_at example_ids example_render (5, 5) = Inr (Some 42)"
    using visual_at_decodes_little_endian
      [where render = example_render and p = "(5, 5)" and visual_ids = example_ids
        and ?b0.0 = 7 and ?b1.0 = 0 and ?b2.0 = 0 and ?b3.0 = 0]
    by (simp add: example_render_def example_ids_def)
  have d: "visual_at example_ids (\<lambda>p. Inr (7, 1, 0, 0)) (5, 5) = Inr None"
    using visual_at_decodes_little_endian
      [where render = "\<lambda>p. Inr (7, 1, 0, 0)" and p = "(5, 5)" and visual_ids = example_ids
        and ?b0.0 = 7 and ?b1.0 = 1 and ?b2.0 = 0 and ?b3.0 = 0]
    by (simp add: example_ids_def)
  have e: "visual_at example_ids (\<lambda>p. Inl IndexError) (5, 5) = Inl IndexError"
    using visual_at_decodes_little_endian
      [where render = "\<lambda>p. Inl IndexError" and p = "(5, 5)" and visual_ids = example_ids
        and e = IndexError]
    by simp
  show ?thesis using a b c d e by simp
qed

section \<open>Viewport and framebuffer stacks\<close>

lemma push_viewport_raises:
  "set_viewport gl (normalize_viewport vp) = Some e \<Longrightarrow>
   push_viewport gl c vp
     = (Some e, c\<lparr>gl_calls := gl_calls c @ [SetViewport (normalize_viewport vp)]\<rparr>)"
  by (simp add: push_viewport_def Let_def)

lemma push_viewport_returns:
  "set_viewport gl (normalize_viewport vp) = None \<Longrightarrow>
   push_viewport gl c vp
     = (None, update_transforms
          (c\<lparr>vp_stack := vp_stack c @ [normalize_viewport vp],
             gl_calls := gl_calls c @ [SetViewport (normalize_viewport vp)]\<rparr>))"
  by (simp add: push_viewport_def Let_def)

lemma update_transforms_stacks:
  "vp_stack (update_transforms c) = vp_stack c" "fb_stack (update_transforms c) = fb_stack c"
  "gl_calls (update_transforms c) = gl_calls c"
  by (simp_all add: update_transforms_def Let_def split: prod.splits)

text \<open>
  Claim C5. In every canvas state: when \<open>set_viewport\<close> raises inside
  \<open>push_viewport\<close>, the call raises the same exception and both stacks are as they
  were before the call; when it returns, the normalized viewport is the one new entry
  on top of the viewport stack. When \<open>fbo.activate()\<close> raises an error (an instance of
  \<open>Exception\<close>) inside \<open>push_fbo\<close>, or the viewport push nested in it does, the call
  raises the same error and both stacks are as they were before the call; when both
  return, the framebuffer entry is the one new entry on top of the framebuffer stack
  (and its viewport on top of the viewport stack).
\<close>

theorem push_rolls_back_on_activation_error:
  "(set_viewport gl (normalize_viewport vp) = Some e \<longrightarrow>
      fst (push_viewport gl c vp) = Some e
      \<and> vp_stack (snd (push_viewport gl c vp)) = vp_stack c
      \<and> fb_stack (snd (push_viewport gl c vp)) = fb_stack c)
   \<and> (set_viewport gl (normalize_viewport vp) = None \<longrightarrow>
      fst (push_viewport gl c vp) = None
      \<and> vp_stack (snd (push_viewport gl c vp)) = vp_stack c @ [normalize_viewport vp]
      \<and> fb_stack (snd (push_viewport gl c vp)) = fb_stack c)
   \<and> (activate gl fbo = Some e \<and> is_Exception e \<longrightarrow>
      fst (push_fbo gl c fbo offset csize) = Some e
      \<and> vp_stack (snd (push_fbo gl c fbo offset csize)) = vp_stack c
      \<and> fb_stack (snd (push_fbo gl c fbo offset csize)) = fb_stack c)
   \<and> (activate gl fbo = None \<and> color_buffer_shape fbo = (h, w)
        \<and> set_viewport gl (normalize_viewport (0, 0, w, h)) = Some e \<and> is_Exception e \<longrightarrow>
      fst (push_fbo gl c fbo offset csize) = Some e
      \<and> vp_stack (snd (push_fbo gl c fbo offset csize)) = vp_stack c
      \<and> fb_stack (snd (push_fbo gl c fbo offset csize)) = fb_stack c)
   \<and> (activate gl fbo = None \<and> color_buffer_shape fbo = (h, w)
        \<and> set_viewport gl (normalize_viewport (0, 0, w, h)) = None \<longrightarrow>
      fst (push_fbo gl c fbo offset csize) = None
      \<and> fb_stack (snd (push_fbo gl c fbo offset csize)) = fb_stack c @ [(fbo, offset, csize)]
      \<and> vp_stack (snd (push_fbo gl c fbo offset csize))
          = vp_stack c @ [normalize_viewport (0, 0, w, h)])"
  by (simp add: push_fbo_def push_viewport_raises push_viewport_returns
      update_transforms_stacks Let_def)

theorem push_rolls_back_on_activation_error_witness:
  "fst (push_viewport gl_failing (empty_canvas example_scene) (0, 0, - 100, 50))
     = Some (RuntimeError ''viewport'')
   \<and> vp_stack (snd (push_viewport gl_failing (empty_canvas example_scene) (0, 0, - 100, 50))) = []
   \<and> fst (push_viewport gl_ok (empty_canvas example_scene) (0, 0, - 100, 50)) = None
   \<and> vp_stack (snd (push_viewport gl_ok (empty_canvas example_scene) (0, 0, - 100, 50)))
       = [(- 100, 0, 100, 50)]
   \<and> fst (push_fbo gl_failing (empty_canvas example_scene) example_fbo (0, 0) (1, 1))
       = Some (RuntimeError ''framebuffer'')
   \<and> fb_stack (snd (push_fbo gl_failing (empty_canvas example_scene) example_fbo (0, 0) (1, 1)))
       = []
   \<and> fst (push_fbo gl_viewport_failing (empty_canvas example_scene) example_fbo (0, 0) (1, 1))
       = Some (RuntimeError ''viewport'')
   \<and> fb_stack (snd (push_fbo gl_viewport_failing (empty_canvas example_scene) example_fbo
         (0, 0) (1, 1))) = []
   \<and> vp_stack (snd (push_fbo gl_viewport_failing (empty_canvas example_scene) example_fbo
         (0, 0) (1, 1))) = []
   \<and> fst (push_fbo gl_ok (empty_canvas example_scene) example_fbo (0, 0) (1, 1)) = None
   \<and> fb_stack (snd (push_fbo gl_ok (empty_canvas example_scene) example_fbo (0, 0) (1, 1)))
       = [(example_fbo, (0, 0), (1, 1))]
   \<and> vp_stack (snd (push_fbo gl_ok (empty_canvas example_scene) example_fbo (0, 0) (1, 1)))
       = [(0, 0, 1, 1)]"
proof -
  let ?c = "empty_canvas example_scene"
  have a: "fst (push_viewport gl_failing ?c (0, 0, - 100, 50)) = Some (RuntimeError ''viewport'')
      \<and> vp_stack (snd (push_viewport gl_failing ?c (0, 0, - 100, 50))) = []"
    using push_rolls_back_on_activation_error [where gl = gl_failing and vp = "(0, 0, - 100, 50)" and c = ?c
        and e = "RuntimeError ''viewport''"]
    by (simp add: gl_failing_def empty_canvas_def)
  have b: "fst (push_viewport gl_ok ?c (0, 0, - 100, 50)) = None
      \<and> vp_stack (snd (push_viewport gl_ok ?c (0, 0, - 100, 50))) = [(- 100, 0, 100, 50)]"
    using push_rolls_back_on_activation_error [where gl = gl_ok and vp = "(0, 0, - 100, 50)" and c = ?c]
    by (simp add: gl_ok_def empty_canvas_def normalize_viewport_def)
  have c: "fst (push_fbo gl_failing ?c example_fbo (0, 0) (1, 1))
        = Some (RuntimeError ''framebuffer'')
      \<and> fb_stack (snd (push_fbo gl_failing ?c example_fbo (0, 0) (1, 1))) = []"
    using push_rolls_back_on_activation_error [where gl = gl_failing and fbo = example_fbo and c = ?c
        and e = "RuntimeError ''framebuffer''" and offset = "(0, 0)" and csize = "(1, 1)"]
    by (simp add: gl_failing_def empty_canvas_def)
  have d: "fst (push_fbo gl_viewport_failing ?c example_fbo (0, 0) (1, 1))
        = Some (RuntimeError ''viewport'')
      \<and> fb_stack (snd (push_fbo gl_viewport_failing ?c example_fbo (0, 0) (1, 1))) = []
      \<and> vp_stack (snd (push_fbo gl_viewport_failing ?c example_fbo (0, 0) (1, 1))) = []"
    using push_rolls_back_on_activation_error [where gl = gl_viewport_failing and fbo = example_fbo and c = ?c
        and e = "RuntimeError ''viewport''" and offset = "(0, 0)" and csize = "(1, 1)"
        and h = 1 and w = 1]
    by (simp add: gl_viewport_failing_def empty_canvas_def example_fbo_def)
  have e: "fst (push_fbo gl_ok ?c example_fbo (0, 0) (1, 1)) = None
      \<and> fb_stack (snd (push_fbo gl_ok ?c example_fbo (0, 0) (1, 1)))
          = [(example_fbo, (0, 0), (1, 1))]
      \<and> vp_stack (snd (push_fbo gl_ok ?c example_fbo (0, 0) (1, 1))) = [(0, 0, 1, 1)]"
    using push_rolls_back_on_activation_error [where gl = gl_ok and fbo = example_fbo and c = ?c
        and offset = "(0, 0)" and csize = "(1, 1)" and h = 1 and w = 1]
    by (simp add: gl_ok_def empty_canvas_def example_fbo_def normalize_viewport_def)
  show ?thesis using a b c d e by simp
qed

text \<open>
  Claim C6. For every viewport \<open>(x, y, w, h)\<close>, \<open>push_viewport\<close> replaces a negative
  width \<open>w\<close> by \<open>- w\<close> and \<open>x\<close> by \<open>x + w\<close>, and a negative height \<open>h\<close> by \<open>- h\<close> and
  \<open>y\<close> by \<open>y + h\<close>; the result has non-negative width and height, \<open>(0, 0, -100, 50)\<close>
  becomes \<open>(-100, 0, 100, 50)\<close>, and a viewport with non-negative width and height
  is unchanged. The normalized viewport is the one passed to \<open>set_viewport\<close> and,
  when that call returns, the one pushed on the stack.
\<close>

theorem push_viewport_normalizes:
  "normalize_viewport (x, y, w, h)
     = (if w < 0 then x + w else x, if h < 0 then y + h else y,
        if w < 0 then - w else w, if h < 0 then - h else h)
   \<and> (\<forall>x' y' w' h'. normalize_viewport (x, y, w, h) = (x', y', w', h') \<longrightarrow> 0 \<le> w' \<and> 0 \<le> h')
   \<and> normalize_viewport (0, 0, - 100, 50) = (- 100, 0, 100, 50)
   \<and> (0 \<le> w \<and> 0 \<le> h \<longrightarrow> normalize_viewport (x, y, w, h) = (x, y, w, h))
   \<and> gl_calls (snd (push_viewport gl c (x, y, w, h)))
       = gl_calls c @ [SetViewport (normalize_viewport (x, y, w, h))]
   \<and> (set_viewport gl (normalize_viewport (x, y, w, h)) = None \<longrightarrow>
        vp_stack (snd (push_viewport gl c (x, y, w, h)))
          = vp_stack c @ [normalize_viewport (x, y, w, h)])"
proof -
  have calls: "gl_calls (snd (push_viewport gl c (x, y, w, h)))
       = gl_calls c @ [SetViewport (normalize_viewport (x, y, w, h))]"
    by (cases "set_viewport gl (normalize_viewport (x, y, w, h))")
       (simp_all add: push_viewport_raises push_viewport_returns update_transforms_stacks)
  have norm: "normalize_viewport (x, y, w, h)
     = (if w < 0 then x + w else x, if h < 0 then y + h else y,
        if w < 0 then - w else w, if h < 0 then - h else h)"
    by (simp add: normalize_viewport_def)
  have ex: "normalize_viewport (0, 0, - 100, 50) = (- 100, 0, 100, 50)"
    by (simp add: normalize_viewport_def)
  show ?thesis
    using calls ex by (auto simp: norm push_viewport_returns update_transforms_stacks)
qed

theorem push_viewport_normalizes_witness:
  "normalize_viewport (0, 0, - 100, 50) = (- 100, 0, 100, 50)
   \<and> normalize_viewport (1, 2, 3, 4) = (1, 2, 3, 4)
   \<and> gl_calls (snd (push_viewport gl_ok (empty_canvas example_scene) (0, 0, - 100, 50)))
       = [SetViewport (- 100, 0, 100, 50)]
   \<and> vp_stack (snd (push_viewport gl_ok (empty_canvas example_scene) (0, 0, - 100, 50)))
       = [(- 100, 0, 100, 50)]"
proof -
  let ?c = "empty_canvas example_scene"
  note T = push_viewport_normalizes [where x = 0 and y = 0 and w = "- 100" and h = 50 and gl = gl_ok and c = ?c]
  from T have n: "normalize_viewport (0, 0, - 100, 50) = (- 100, 0, 100, 50)" by simp
  have ok: "set_viewport gl_ok (- 100, 0, 100, 50) = None" by (simp add: gl_ok_def)
  from T n ok have s: "gl_calls (snd (push_viewport gl_ok ?c (0, 0, - 100, 50)))
       = [SetViewport (- 100, 0, 100, 50)]
     \<and> vp_stack (snd (push_viewport gl_ok ?c (0, 0, - 100, 50))) = [(- 100, 0, 100, 50)]"
    by (simp add: empty_canvas_def)
  have p: "normalize_viewport (1, 2, 3, 4) = (1, 2, 3, 4)"
    using push_viewport_normalizes [where x = 1 and y = 2 and w = 3 and h = 4] by simp
  show ?thesis using n s p by simp
qed

section \<open>Bounds of a compound visual\<close>

lemma compute_bounds_loop_cases:
  "compute_bounds_loop vs axis acc =
     (if \<exists>v \<in> set vs. sv_visible v then Inl (NameError ''b'') else Inr acc)"
  by (induction vs) auto

text \<open>
  Claim C7. For every compound and axis, \<open>_compute_bounds\<close> raises \<open>NameError\<close> for
  the unbound name \<open>b\<close> as soon as one sub-visual is visible, and returns \<open>None\<close>
  when none is: it never returns a union. On the compound whose one sub-visual is
  visible with bounds \<open>(0, 1)\<close> the union of the visible bounds is \<open>(0, 1)\<close>, and the
  function raises.
\<close>

theorem compute_bounds_raises_NameError:
  "compute_bounds subvisuals axis =
     (if \<exists>v \<in> set subvisuals. sv_visible v then Inl (NameError ''b'') else Inr None)
   \<and> compute_bounds [example_subvisual] 0 = Inl (NameError ''b'')
   \<and> spec_bounds_union [example_subvisual] 0 = Some (0, 1)"
  by (simp add: compute_bounds_def compute_bounds_loop_cases example_subvisual_def)

theorem compute_bounds_raises_NameError_witness:
  "compute_bounds [example_subvisual\<lparr>sv_visible := False\<rparr>, example_subvisual] 0
     = Inl (NameError ''b'')
   \<and> compute_bounds [example_subvisual\<lparr>sv_visible := False\<rparr>] 0 = Inr None"
proof -
  have a: "compute_bounds [example_subvisual\<lparr>sv_visible := False\<rparr>, example_subvisual] 0
     = Inl (NameError ''b'')"
    using compute_bounds_raises_NameError
      [of "[example_subvisual\<lparr>sv_visible := False\<rparr>, example_subvisual]" 0]
    by (simp add: example_subvisual_def)
  have b: "compute_bounds [example_subvisual\<lparr>sv_visible := False\<rparr>] 0 = Inr None"
    using compute_bounds_raises_NameError [of "[example_subvisual\<lparr>sv_visible := False\<rparr>]" 0]
    by simp
  show ?thesis using a b by simp
qed

section \<open>Ellipse configuration\<close>

lemma radius_setter_invalid:
  "center e = Some c \<Longrightarrow> length rs \<noteq> 2 \<Longrightarrow>
   radius_setter np e (Seq rs)
     = (Some (ValueError ''radius must be float or 2 value tuple/list''), e\<lparr>radius := Seq rs\<rparr>)"
  by (simp add: radius_setter_def update_vertices_def generate_vertices_def)

text \<open>
  Claim C8. Assigning a radius list whose length is not 2 to an ellipse that has a
  centre raises \<open>ValueError\<close> from the vertex generation, after the setter has stored
  the new radius: the visual is left holding the invalid radius, with its other
  fields and its vertex data untouched; for the radius \<open>(1, 2, 3)\<close> on the example
  ellipse the stored radius after the error differs from the one before. On an
  ellipse without a centre the radius setter stores any radius and raises nothing, and
  the constructor without a centre accepts any radius and any segment count. The
  \<open>num_segments\<close> setter, given a count below 1, raises before it changes anything.
\<close>

theorem radius_setter_assigns_before_raising:
  "(center e = Some c \<and> length rs \<noteq> 2 \<longrightarrow>
      radius_setter np e (Seq rs)
        = (Some (ValueError ''radius must be float or 2 value tuple/list''),
           e\<lparr>radius := Seq rs\<rparr>))
   \<and> radius (snd (radius_setter np example_ellipse (Seq [1, 2, 3]))) \<noteq> radius example_ellipse
   \<and> radius_setter np (e\<lparr>center := None\<rparr>) r = (None, e\<lparr>center := None, radius := r\<rparr>)
   \<and> EllipseVisual np None blank border_blank r start_a span_a n
       = Inr \<lparr>center = None, radius = r, start_angle = start_a, span_angle = span_a,
              num_segments = n, color_is_blank = blank,
              border_color_is_blank = border_blank,
              mesh_vertices = None, border_pos = None\<rparr>
   \<and> (k < 1 \<longrightarrow>
        num_segments_setter np e k
          = (Some (ValueError ''EllipseVisual must consist of more than 1 segment''), e))"
proof -
  have "center example_ellipse = Some (0, 0)" by (simp add: example_ellipse_def)
  then have "radius_setter np example_ellipse (Seq [1, 2, 3])
      = (Some (ValueError ''radius must be float or 2 value tuple/list''),
         example_ellipse\<lparr>radius := Seq [1, 2, 3]\<rparr>)"
    by (rule radius_setter_invalid) simp
  then have ex: "radius (snd (radius_setter np example_ellipse (Seq [1, 2, 3])))
      \<noteq> radius example_ellipse"
    by (simp add: example_ellipse_def)
  have nc: "radius_setter np (e\<lparr>center := None\<rparr>) r = (None, e\<lparr>center := None, radius := r\<rparr>)"
    by (simp add: radius_setter_def update_vertices_def)
  have ctor: "EllipseVisual np None blank border_blank r start_a span_a n
       = Inr \<lparr>center = None, radius = r, start_angle = start_a, span_angle = span_a,
              num_segments = n, color_is_blank = blank,
              border_color_is_blank = border_blank,
              mesh_vertices = None, border_pos = None\<rparr>"
    by (simp add: EllipseVisual_def update_vertices_def)
  show ?thesis
    using ex nc ctor by (simp add: radius_setter_invalid num_segments_setter_def)
qed

theorem radius_setter_assigns_before_raising_witness:
  "radius_setter (\<lambda>c xr yr a b n. Inr []) example_ellipse (Seq [1, 2, 3])
     = (Some (ValueError ''radius must be float or 2 value tuple/list''),
        example_ellipse\<lparr>radius := Seq [1, 2, 3]\<rparr>)
   \<and> num_segments_setter (\<lambda>c xr yr a b n. Inr []) example_ellipse 0
     = (Some (ValueError ''EllipseVisual must consist of more than 1 segment''),
        example_ellipse)"
proof -
  let ?np = "\<lambda>(c :: real \<times> real) (xr :: real) (yr :: real) (a :: real) (b :: real) (n :: int).
               (Inr [] :: error + (real \<times> real) list)"
  have c: "center example_ellipse = Some (0, 0)" by (simp add: example_ellipse_def)
  have l: "length [1, 2, 3 :: real] \<noteq> 2" by simp
  note T = radius_setter_assigns_before_raising
    [where e = example_ellipse and c = "(0, 0)" and rs = "[1, 2, 3]" and k = 0 and np = ?np]
  from T c l have a: "radius_setter ?np example_ellipse (Seq [1, 2, 3])
     = (Some (ValueError ''radius must be float or 2 value tuple/list''),
        example_ellipse\<lparr>radius := Seq [1, 2, 3]\<rparr>)" by blast
  from T have b: "num_segments_setter ?np example_ellipse 0
     = (Some (ValueError ''EllipseVisual must consist of more than 1 segment''),
        example_ellipse)" by simp
  show ?thesis using a b by simp
qed

section \<open>Mouse events\<close>

text \<open>
  Claim C9. With no mouse handler latched, a press at a position where the picking
  pass finds a visual latches that visual. With a handler latched, every event that
  is not a release keeps the latch, and a release clears it; in both cases the latched
  visual is taken as the target whatever the picking pass finds under the pointer. In
  all three cases a redraw is requested and the original event's \<open>handled\<close> flag
  becomes the flag of the scene-level event as its constructor made it: the visuals'
  event emitters (\<open>emit\<close>) play no part in the result, the scene-level event is built
  and never handed to the target. So it is for the press on the example canvas at a
  position where visual 42 is picked.
\<close>

theorem process_mouse_event_press_not_delivered:
  "(visual_at visual_ids render (pos event) = Inr (Some v) \<and> mouse_handler c = None
      \<and> etype event = ''mouse_press'' \<longrightarrow>
      process_mouse_event visual_ids render SceneMouseEvent emit c event
        = Inr (c\<lparr>mouse_handler := Some v, update_count := update_count c + 1\<rparr>,
               event\<lparr>handled := se_handled (SceneMouseEvent event v)\<rparr>))
   \<and> (visual_at visual_ids render (pos event) = Inr under_pointer \<and> mouse_handler c = Some t
      \<and> etype event \<noteq> ''mouse_release'' \<longrightarrow>
      process_mouse_event visual_ids render SceneMouseEvent emit c event
        = Inr (c\<lparr>update_count := update_count c + 1\<rparr>,
               event\<lparr>handled := se_handled (SceneMouseEvent event t)\<rparr>))
   \<and> (visual_at visual_ids render (pos event) = Inr under_pointer \<and> mouse_handler c = Some t
      \<and> etype event = ''mouse_release'' \<longrightarrow>
      process_mouse_event visual_ids render SceneMouseEvent emit c event
        = Inr (c\<lparr>mouse_handler := None, update_count := update_count c + 1\<rparr>,
               event\<lparr>handled := se_handled (SceneMouseEvent event t)\<rparr>))
   \<and> process_mouse_event example_ids example_render SceneMouseEvent emit
        (empty_canvas example_scene) press_event
       = Inr ((empty_canvas example_scene)\<lparr>mouse_handler := Some 42, update_count := 1\<rparr>,
              press_event\<lparr>handled := se_handled (SceneMouseEvent press_event 42)\<rparr>)"
proof -
  have ex: "process_mouse_event example_ids example_render SceneMouseEvent emit
        (empty_canvas example_scene) press_event
       = Inr ((empty_canvas example_scene)\<lparr>mouse_handler := Some 42, update_count := 1\<rparr>,
              press_event\<lparr>handled := se_handled (SceneMouseEvent press_event 42)\<rparr>)"
    by (simp add: process_mouse_event_def visual_at_def example_render_def example_ids_def
        pack_4B_def empty_canvas_def press_event_def)
  show ?thesis
    using ex by (simp add: process_mouse_event_def)
qed

theorem process_mouse_event_press_not_delivered_witness:
  "process_mouse_event example_ids example_render new_scene_event handling_emit
      ((empty_canvas example_scene)\<lparr>mouse_handler := Some 42\<rparr>)
      (press_event\<lparr>etype := ''mouse_move''\<rparr>)
     = Inr ((empty_canvas example_scene)\<lparr>mouse_handler := Some 42, update_count := 1\<rparr>,
            press_event\<lparr>etype := ''mouse_move'', handled := False\<rparr>)
   \<and> process_mouse_event example_ids example_render new_scene_event handling_emit
      ((empty_canvas example_scene)\<lparr>mouse_handler := Some 42\<rparr>)
      (press_event\<lparr>etype := ''mouse_release''\<rparr>)
     = Inr ((empty_canvas example_scene)\<lparr>mouse_handler := None, update_count := 1\<rparr>,
            press_event\<lparr>etype := ''mouse_release'', handled := False\<rparr>)
   \<and> process_mouse_event [7 \<mapsto> 42] (\<lambda>p. Inr (7, 0, 0, 0)) new_scene_event handling_emit
        (empty_canvas example_scene) press_event
       = Inr ((empty_canvas example_scene)\<lparr>mouse_handler := Some 42, update_count := 1\<rparr>,
              press_event\<lparr>handled := False\<rparr>)"
proof -
  let ?c = "(empty_canvas example_scene)\<lparr>mouse_handler := Some 42\<rparr>"
  have va: "visual_at example_ids example_render p = Inr (Some 42)" for p
    by (simp add: visual_at_def example_render_def example_ids_def pack_4B_def)
  have vb: "visual_at [7 \<mapsto> 42] (\<lambda>p. Inr (7, 0, 0, 0)) p = Inr (Some 42)" for p
    by (simp add: visual_at_def pack_4B_def)
  have a: "process_mouse_event example_ids example_render new_scene_event handling_emit ?c
      (press_event\<lparr>etype := ''mouse_move''\<rparr>)
     = Inr (?c\<lparr>update_count := update_count ?c + 1\<rparr>,
            press_event\<lparr>etype := ''mouse_move'', handled := False\<rparr>)"
    using process_mouse_event_press_not_delivered
      [where visual_ids = example_ids and render = example_render and c = ?c
        and event = "press_event\<lparr>etype := ''mouse_move''\<rparr>" and t = 42
        and under_pointer = "Some 42" and SceneMouseEvent = new_scene_event
        and emit = handling_emit]
      va
    by (simp add: new_scene_event_def)
  have b: "process_mouse_event example_ids example_render new_scene_event handling_emit ?c
      (press_event\<lparr>etype := ''mouse_release''\<rparr>)
     = Inr (?c\<lparr>mouse_handler := None, update_count := update_count ?c + 1\<rparr>,
            press_event\<lparr>etype := ''mouse_release'', handled := False\<rparr>)"
    using process_mouse_event_press_not_delivered
      [where visual_ids = example_ids and render = example_render and c = ?c
        and event = "press_event\<lparr>etype := ''mouse_release''\<rparr>" and t = 42
        and under_pointer = "Some 42" and SceneMouseEvent = new_scene_event
        and emit = handling_emit]
      va
    by (simp add: new_scene_event_def)
  have c: "process_mouse_event [7 \<mapsto> 42] (\<lambda>p. Inr (7, 0, 0, 0)) new_scene_event handling_emit
        (empty_canvas example_scene) press_event
       = Inr ((empty_canvas example_scene)\<lparr>mouse_handler := Some 42,
                update_count := update_count (empty_canvas example_scene) + 1\<rparr>,
              press_event\<lparr>handled := False\<rparr>)"
    using process_mouse_event_press_not_delivered
      [where visual_ids = "[7 \<mapsto> 42]" and render = "\<lambda>p. Inr (7, 0, 0, 0)"
        and c = "empty_canvas example_scene" and event = press_event and v = 42
        and SceneMouseEvent = new_scene_event and emit = handling_emit]
      vb
    by (simp add: press_event_def empty_canvas_def new_scene_event_def)
  show ?thesis using a b c by (simp add: empty_canvas_def)
qed

section \<open>The bounds of a plain Visual\<close>

lemma Visual_namespace_bounds: "class_namespace Visual_body ''bounds'' = Some Visual_bounds"
  by (simp add: class_namespace_def Visual_body_def)

lemma Visual_bounds_state: "snd (Visual_bounds self args) = self"
  by (cases args) simp_all

text \<open>
  Claim C10. In the namespace of class \<open>Visual\<close> the name \<open>bounds\<close> is bound to the
  second, zero-argument definition, which is therefore what attribute lookup on any
  instance finds, ahead of \<open>BaseVisual.bounds\<close>. Calling it without arguments returns
  \<open>None\<close> for every instance and leaves the instance, its bounds cache included, as it
  was; calling it with an axis raises \<open>TypeError\<close>; no call changes the instance. The
  first, axis-taking definition is a different function and is not reachable under
  this name.
\<close>

theorem Visual_bounds_is_second_definition:
  "class_namespace Visual_body ''bounds'' = Some Visual_bounds
   \<and> lookup_method Visual_mro ''bounds'' = Some Visual_bounds
   \<and> call_method Visual_mro ''bounds'' self [] = (Inr None, self)
   \<and> call_method Visual_mro ''bounds'' self [axis] = (Inl (TypeError ''bounds''), self)
   \<and> snd (call_method Visual_mro ''bounds'' self args) = self
   \<and> Visual_bounds \<noteq> Visual_bounds_axis"
proof -
  have ns: "class_namespace Visual_body ''bounds'' = Some Visual_bounds"
    by (rule Visual_namespace_bounds)
  have lk: "lookup_method Visual_mro ''bounds'' = Some Visual_bounds"
    by (simp add: Visual_mro_def ns)
  have "Visual_bounds self [] \<noteq> Visual_bounds_axis self []" by simp
  then have ne: "Visual_bounds \<noteq> Visual_bounds_axis" by metis
  show ?thesis
    using ns lk ne by (simp add: call_method_def Visual_bounds_state)
qed

end
